theory Spec2Isabelle
  imports Complex_Main
begin

section \<open>Data model\<close>

text \<open>
  The dataclasses of \<^verbatim>\<open>src/data.py\<close> and \<^verbatim>\<open>src/simulator.py\<close>. Python floats are
  read as exact reals (rounding is not modelled). A Python \<^verbatim>\<open>dict\<close> whose iteration
  order matters is a list in insertion order; \<^verbatim>\<open>DataManager._initialize_objects\<close> stores
  every plant and farm under its own id, so the list of values stands for the dict and a
  lookup by key is a search for the id.
\<close>

datatype error = KeyError | ZeroDivisionError

record Farm =
  farm_id :: string
  zone :: string
  area_ha :: real
  farm_lat :: real
  farm_lon :: real
  distances :: "string \<rightharpoonup> real"

record STP =
  stp_id :: string
  daily_output :: real
  max_storage :: real
  stp_lat :: real
  stp_lon :: real
  current_storage :: real

datatype Action = Action (act_stp_id: string) (act_farm_id: string) (amount_tons: real)

record DailyResult =
  res_date :: string
  credits :: real
  emissions :: real
  penalties :: real
  net_score :: real
  delivered_tons :: real
  overflow_tons :: real
  banned_actions :: nat

text \<open>
  The constants \<^verbatim>\<open>BiosolidSimulator.__init__\<close> reads from \<^verbatim>\<open>config.json\<close>. The file is
  not part of the sources, so the values are parameters. The forecast window is a number
  of days, a natural number; the application buffer is kept as the configured percentage
  and divided by 100 where the code does it.
\<close>

record Config =
  truck_capacity :: real
  emission_factor :: real
  n_content :: real
  synthetic_credit :: real
  cfg_soil_credit :: real
  leaching_penalty :: real
  application_buffer_percent :: real
  rain_threshold :: real
  overflow_penalty :: real
  forecast_window :: nat

text \<open>
  The weather table is read by column (\<^verbatim>\<open>iloc[a:b][zone]\<close>): the date column and one
  rainfall column per zone. The demand table is read by row (\<^verbatim>\<open>row.iloc[0].to_dict()\<close>):
  each row is its date and the per-farm demand.
\<close>

record Weather =
  weather_dates :: "string list"
  weather_cols :: "string \<rightharpoonup> real list"

record DataManager =
  config :: Config
  stps :: "STP list"
  farms :: "Farm list"
  weather_df :: Weather
  n_demand_df :: "(string \<times> (string \<rightharpoonup> real)) list"

definition buffer_percent :: "Config \<Rightarrow> real" where
  "buffer_percent c = application_buffer_percent c / 100"

section \<open>Registry lookups (\<^verbatim>\<open>src/data.py\<close>)\<close>

text \<open>Position of the first row whose date matches: \<^verbatim>\<open>df[df['date'] == date].index[0]\<close>.\<close>

primrec index_of :: "string list \<Rightarrow> string \<Rightarrow> nat option" where
  "index_of [] d = None"
| "index_of (x # xs) d = (if x = d then Some 0 else map_option Suc (index_of xs d))"

text \<open>
  \<^verbatim>\<open>get_weather_forecast\<close>: an unknown date raises \<^verbatim>\<open>IndexError\<close>, which is caught and
  gives all zeros; an unknown zone column raises \<^verbatim>\<open>KeyError\<close>, which is not caught.
\<close>

definition get_weather_forecast :: "DataManager \<Rightarrow> string \<Rightarrow> string \<Rightarrow> nat \<Rightarrow> error + real list" where
  "get_weather_forecast dm date z lookahead_days =
     (case index_of (weather_dates (weather_df dm)) date of
        None \<Rightarrow> Inr (replicate lookahead_days 0)
      | Some start_idx \<Rightarrow>
          (case weather_cols (weather_df dm) z of
             None \<Rightarrow> Inl KeyError
           | Some col \<Rightarrow>
               (let rainfall = take lookahead_days (drop start_idx col)
                in Inr (if length rainfall < lookahead_days
                        then rainfall @ replicate (lookahead_days - length rainfall) 0
                        else rainfall))))"

text \<open>\<^verbatim>\<open>get_daily_demand_per_ha\<close>: the first row of the date, or the empty dict.\<close>

definition get_daily_demand_per_ha :: "DataManager \<Rightarrow> string \<Rightarrow> (string \<rightharpoonup> real)" where
  "get_daily_demand_per_ha dm date =
     (case map_of (n_demand_df dm) date of None \<Rightarrow> Map.empty | Some demands \<Rightarrow> demands)"

text \<open>\<^verbatim>\<open>d.get(k, 0.0)\<close>\<close>

definition get_or :: "('k \<rightharpoonup> real) \<Rightarrow> 'k \<Rightarrow> real \<Rightarrow> real" where
  "get_or d k dflt = (case d k of None \<Rightarrow> dflt | Some v \<Rightarrow> v)"

text \<open>\<^verbatim>\<open>self.dm.farms[k]\<close> and \<^verbatim>\<open>self.dm.stps[k]\<close>\<close>

definition lookup_farm :: "DataManager \<Rightarrow> string \<Rightarrow> Farm option" where
  "lookup_farm dm k = find (\<lambda>f. farm_id f = k) (farms dm)"

definition lookup_stp :: "DataManager \<Rightarrow> string \<Rightarrow> STP option" where
  "lookup_stp dm k = find (\<lambda>s. stp_id s = k) (stps dm)"

section \<open>Rain lock (\<^verbatim>\<open>BiosolidSimulator.is_rain_locked\<close>)\<close>

definition is_rain_locked :: "DataManager \<Rightarrow> string \<Rightarrow> string \<Rightarrow> error + bool" where
  "is_rain_locked dm date z =
     (case get_weather_forecast dm date z (forecast_window (config dm)) of
        Inl e \<Rightarrow> Inl e
      | Inr forecast \<Rightarrow> Inr (sum_list forecast > rain_threshold (config dm)))"


section \<open>Dispatch solver (\<^verbatim>\<open>CorrectedSolver.solve_day\<close>)\<close>

text \<open>The solver's own constants, set in \<^verbatim>\<open>CorrectedSolver.__init__\<close>.\<close>

definition soil_credit :: real where
  "soil_credit = 200"

definition transport_cost_per_km :: real where
  "transport_cost_per_km = 0.9"

text \<open>
  The triage key of \<^verbatim>\<open>sorted(..., reverse=True)\<close>. Python's sort is stable also with
  \<^verbatim>\<open>reverse=True\<close>, so it is the stable ascending sort on the negated key.
\<close>

definition triage_key :: "STP \<Rightarrow> real" where
  "triage_key s = (if max_storage s > 0 then current_storage s / max_storage s else 0)"

definition sorted_stps :: "DataManager \<Rightarrow> STP list" where
  "sorted_stps dm = sort_key (\<lambda>s. - triage_key s) (stps dm)"

type_synonym option_tuple = "real \<times> real \<times> string \<times> real"

text \<open>
  The inner loop over \<^verbatim>\<open>self.dm.farms.items()\<close> that fills \<^verbatim>\<open>delivery_options\<close> with
  tuples \<^verbatim>\<open>(net_carbon_impact, dist, farm_id, load_tons)\<close> (\<open>dist\<close> is written \<open>dist_km\<close>).
\<close>

fun delivery_options ::
  "DataManager \<Rightarrow> string \<Rightarrow> (string \<rightharpoonup> real) \<Rightarrow> STP \<Rightarrow> real \<Rightarrow> string set \<Rightarrow> Farm list
   \<Rightarrow> error + option_tuple list" where
  "delivery_options dm date per_ha_demands stp available visited_farms [] = Inr []"
| "delivery_options dm date per_ha_demands stp available visited_farms (farm # rest) =
     (if farm_id farm \<in> visited_farms
      then delivery_options dm date per_ha_demands stp available visited_farms rest
      else
        (case is_rain_locked dm date (zone farm) of
           Inl e \<Rightarrow> Inl e
         | Inr True \<Rightarrow> delivery_options dm date per_ha_demands stp available visited_farms rest
         | Inr False \<Rightarrow>
             (case distances farm (stp_id stp) of
                None \<Rightarrow> Inl KeyError
              | Some dist_km \<Rightarrow>
                  (let demand_kg_ha = get_or per_ha_demands (farm_id farm) 0;
                       total_n_demand = demand_kg_ha * area_ha farm;
                       load_tons = min available 10;
                       soil_benefit = load_tons * 1.37 * soil_credit;
                       load_n_kg = load_tons * n_content (config dm);
                       useful_n_kg = min load_n_kg total_n_demand;
                       n_offset_benefit = useful_n_kg * 5;
                       trucks = \<lceil>load_tons / 10\<rceil>;
                       transport_cost = dist_km * transport_cost_per_km * of_int trucks;
                       max_safe_n = total_n_demand * (1 + buffer_percent (config dm));
                       excess_n_kg = max 0 (load_n_kg - max_safe_n);
                       leaching_cost = excess_n_kg * 10;
                       net_carbon_impact =
                         soil_benefit + n_offset_benefit - transport_cost - leaching_cost
                   in (case delivery_options dm date per_ha_demands stp available
                              visited_farms rest of
                         Inl e \<Rightarrow> Inl e
                       | Inr opts \<Rightarrow>
                           Inr ((net_carbon_impact, dist_km, farm_id farm, load_tons) # opts))))))"

text \<open>\<^verbatim>\<open>delivery_options.sort(key=lambda x: x[0], reverse=True)\<close>\<close>

definition sort_options :: "option_tuple list \<Rightarrow> option_tuple list" where
  "sort_options opts = sort_key (\<lambda>x. - fst x) opts"

text \<open>
  The acceptance walk. The state is the action list, the visited set and the plant's
  remaining material. \<^verbatim>\<open>stp.current_storage / stp.max_storage\<close> is a float division:
  it raises \<^verbatim>\<open>ZeroDivisionError\<close> on a zero capacity.
\<close>

fun dispatch ::
  "STP \<Rightarrow> option_tuple list \<Rightarrow> Action list \<times> string set \<times> real
   \<Rightarrow> error + (Action list \<times> string set \<times> real)" where
  "dispatch stp [] st = Inr st"
| "dispatch stp ((net_benefit, dist_km, fid, load_tons) # rest) (actions, visited_farms, available) =
     (if available < 1 then Inr (actions, visited_farms, available)
      else if max_storage stp = 0 then Inl ZeroDivisionError
      else
        (let fill_ratio = current_storage stp / max_storage stp
         in if net_benefit > 0 \<or> fill_ratio > 0.8
            then (let amount = min available load_tons
                  in dispatch stp rest
                       (actions @ [Action (stp_id stp) fid amount],
                        insert fid visited_farms,
                        available - amount))
            else Inr (actions, visited_farms, available)))"

text \<open>One pass of the outer loop \<^verbatim>\<open>for stp in sorted_stps\<close>.\<close>

definition solve_stp ::
  "DataManager \<Rightarrow> string \<Rightarrow> (string \<rightharpoonup> real) \<Rightarrow> STP \<Rightarrow> Action list \<times> string set
   \<Rightarrow> error + (Action list \<times> string set)" where
  "solve_stp dm date per_ha_demands stp st =
     (let available = current_storage stp + daily_output stp
      in if available < 1 then Inr st
         else
           (case delivery_options dm date per_ha_demands stp available (snd st) (farms dm) of
              Inl e \<Rightarrow> Inl e
            | Inr opts \<Rightarrow>
                (case dispatch stp (sort_options opts) (fst st, snd st, available) of
                   Inl e \<Rightarrow> Inl e
                 | Inr (actions, visited_farms, _) \<Rightarrow> Inr (actions, visited_farms))))"

fun solve_stps ::
  "DataManager \<Rightarrow> string \<Rightarrow> (string \<rightharpoonup> real) \<Rightarrow> STP list \<Rightarrow> Action list \<times> string set
   \<Rightarrow> error + (Action list \<times> string set)" where
  "solve_stps dm date per_ha_demands [] st = Inr st"
| "solve_stps dm date per_ha_demands (stp # rest) st =
     (case solve_stp dm date per_ha_demands stp st of
        Inl e \<Rightarrow> Inl e
      | Inr st' \<Rightarrow> solve_stps dm date per_ha_demands rest st')"

definition solve_day :: "DataManager \<Rightarrow> string \<Rightarrow> error + Action list" where
  "solve_day dm date =
     (case solve_stps dm date (get_daily_demand_per_ha dm date) (sorted_stps dm) ([], {}) of
        Inl e \<Rightarrow> Inl e
      | Inr (actions, _) \<Rightarrow> Inr actions)"

section \<open>Simulation engine (\<^verbatim>\<open>BiosolidSimulator.run_day\<close>)\<close>

text \<open>The locals of \<^verbatim>\<open>run_day\<close> that the action loop updates.\<close>

record DayAcc =
  daily_emissions :: real
  daily_penalties :: real
  daily_delivered :: real
  banned_count :: nat
  farm_deliveries :: "(string \<times> real) list"
  stp_dispatches :: "(string \<times> real) list"

definition acc0 :: DayAcc where
  "acc0 = \<lparr>daily_emissions = 0, daily_penalties = 0, daily_delivered = 0, banned_count = 0,
           farm_deliveries = [], stp_dispatches = []\<rparr>"

text \<open>\<^verbatim>\<open>d[k] = d.get(k, 0) + v\<close> on a dict kept in insertion order, and \<^verbatim>\<open>d.get(k, dflt)\<close>.\<close>

fun dict_add :: "(string \<times> real) list \<Rightarrow> string \<Rightarrow> real \<Rightarrow> (string \<times> real) list" where
  "dict_add [] k v = [(k, 0 + v)]"
| "dict_add ((k', x) # d) k v = (if k' = k then (k', x + v) # d else (k', x) # dict_add d k v)"

definition dict_get :: "(string \<times> real) list \<Rightarrow> string \<Rightarrow> real \<Rightarrow> real" where
  "dict_get d k dflt = (case map_of d k of None \<Rightarrow> dflt | Some v \<Rightarrow> v)"

text \<open>The body of \<^verbatim>\<open>for action in actions\<close>.\<close>

definition process_action :: "DataManager \<Rightarrow> string \<Rightarrow> DayAcc \<Rightarrow> Action \<Rightarrow> error + DayAcc" where
  "process_action dm date acc action =
     (case lookup_farm dm (act_farm_id action) of
        None \<Rightarrow> Inl KeyError
      | Some farm \<Rightarrow>
     (case lookup_stp dm (act_stp_id action) of
        None \<Rightarrow> Inl KeyError
      | Some stp \<Rightarrow>
     (case is_rain_locked dm date (zone farm) of
        Inl e \<Rightarrow> Inl e
      | Inr True \<Rightarrow>
          (case distances farm (act_stp_id action) of
             None \<Rightarrow> Inl KeyError
           | Some distance \<Rightarrow>
               if truck_capacity (config dm) = 0 then Inl ZeroDivisionError
               else
                 (let trucks_needed = \<lceil>amount_tons action / truck_capacity (config dm)\<rceil>
                  in Inr (acc\<lparr>
                       daily_penalties := daily_penalties acc
                         + amount_tons action * overflow_penalty (config dm),
                       banned_count := banned_count acc + 1,
                       daily_emissions := daily_emissions acc
                         + (distance * of_int trucks_needed) * emission_factor (config dm),
                       stp_dispatches :=
                         dict_add (stp_dispatches acc) (act_stp_id action) (amount_tons action)\<rparr>)))
      | Inr False \<Rightarrow>
          (case distances farm (act_stp_id action) of
             None \<Rightarrow> Inl KeyError
           | Some distance \<Rightarrow>
               if truck_capacity (config dm) = 0 then Inl ZeroDivisionError
               else
                 (let trucks_needed = \<lceil>amount_tons action / truck_capacity (config dm)\<rceil>
                  in Inr (acc\<lparr>
                       daily_emissions := daily_emissions acc
                         + (distance * of_int trucks_needed) * emission_factor (config dm),
                       farm_deliveries :=
                         dict_add (farm_deliveries acc) (act_farm_id action) (amount_tons action),
                       stp_dispatches :=
                         dict_add (stp_dispatches acc) (act_stp_id action) (amount_tons action),
                       daily_delivered := daily_delivered acc + amount_tons action\<rparr>))))))"

fun process_actions :: "DataManager \<Rightarrow> string \<Rightarrow> DayAcc \<Rightarrow> Action list \<Rightarrow> error + DayAcc" where
  "process_actions dm date acc [] = Inr acc"
| "process_actions dm date acc (action # rest) =
     (case process_action dm date acc action of
        Inl e \<Rightarrow> Inl e
      | Inr acc' \<Rightarrow> process_actions dm date acc' rest)"

text \<open>
  The loop over \<^verbatim>\<open>farm_deliveries.items()\<close>; the state is
  \<^verbatim>\<open>(daily_credits, daily_penalties)\<close>.
\<close>

fun process_farms ::
  "DataManager \<Rightarrow> (string \<rightharpoonup> real) \<Rightarrow> (string \<times> real) list \<Rightarrow> real \<times> real
   \<Rightarrow> error + (real \<times> real)" where
  "process_farms dm per_ha_demands [] st = Inr st"
| "process_farms dm per_ha_demands ((fid, delivered) # rest) (daily_credits, daily_pen) =
     (case lookup_farm dm fid of
        None \<Rightarrow> Inl KeyError
      | Some farm \<Rightarrow>
          (let n_delivered_kg = delivered * n_content (config dm);
               demand_per_ha = get_or per_ha_demands fid 0;
               total_demand_kg = demand_per_ha * area_ha farm;
               uptake_kg = min n_delivered_kg total_demand_kg;
               credits1 = daily_credits + uptake_kg * synthetic_credit (config dm);
               credits2 = credits1 + (delivered * 1000) * cfg_soil_credit (config dm);
               max_safe_n = total_demand_kg * (1 + buffer_percent (config dm));
               pen = (if n_delivered_kg > max_safe_n
                      then daily_pen + (n_delivered_kg - max_safe_n) * leaching_penalty (config dm)
                      else daily_pen)
           in process_farms dm per_ha_demands rest (credits2, pen)))"

text \<open>
  The body of \<^verbatim>\<open>for stp_id, stp in self.dm.stps.items()\<close>: the plant with its new
  storage, and the updated \<^verbatim>\<open>(daily_overflow, daily_penalties)\<close>.
\<close>

definition update_stp ::
  "Config \<Rightarrow> (string \<times> real) list \<Rightarrow> STP \<Rightarrow> real \<times> real \<Rightarrow> STP \<times> real \<times> real" where
  "update_stp cfg dispatches stp st =
     (let available_tons = current_storage stp + daily_output stp;
          attempted_dispatch = dict_get dispatches (stp_id stp) 0;
          stp1 = stp\<lparr>current_storage := max 0 (available_tons - attempted_dispatch)\<rparr>
      in if current_storage stp1 > max_storage stp1
         then (let excess = current_storage stp1 - max_storage stp1
               in (stp1\<lparr>current_storage := max_storage stp1\<rparr>,
                   fst st + excess,
                   snd st + excess * overflow_penalty cfg))
         else (stp1, fst st, snd st))"

fun process_stps ::
  "Config \<Rightarrow> (string \<times> real) list \<Rightarrow> STP list \<Rightarrow> real \<times> real \<Rightarrow> STP list \<times> real \<times> real" where
  "process_stps cfg dispatches [] st = ([], fst st, snd st)"
| "process_stps cfg dispatches (stp # rest) st =
     (case update_stp cfg dispatches stp st of
        (stp', overflow, pen) \<Rightarrow>
          (case process_stps cfg dispatches rest (overflow, pen) of
             (rest', overflow', pen') \<Rightarrow> (stp' # rest', overflow', pen')))"

text \<open>
  \<^verbatim>\<open>run_day\<close> mutates the plants held by the data manager and returns the day's
  result; the model returns the data manager after the day together with the result. An
  exception leaves the plants untouched: every raise is before the storage loop.
\<close>

definition run_day :: "DataManager \<Rightarrow> string \<Rightarrow> Action list \<Rightarrow> error + (DataManager \<times> DailyResult)" where
  "run_day dm date actions =
     (case process_actions dm date acc0 actions of
        Inl e \<Rightarrow> Inl e
      | Inr acc \<Rightarrow>
          (case process_farms dm (get_daily_demand_per_ha dm date) (farm_deliveries acc)
                  (0, daily_penalties acc) of
             Inl e \<Rightarrow> Inl e
           | Inr (daily_credits, pen) \<Rightarrow>
               (case process_stps (config dm) (stp_dispatches acc) (stps dm) (0, pen) of
                  (stps', daily_overflow, pen') \<Rightarrow>
                    Inr (dm\<lparr>stps := stps'\<rparr>,
                         \<lparr>res_date = date,
                          credits = daily_credits,
                          emissions = daily_emissions acc,
                          penalties = pen',
                          net_score = daily_credits - daily_emissions acc - pen',
                          delivered_tons = daily_delivered acc,
                          overflow_tons = daily_overflow,
                          banned_actions = banned_count acc\<rparr>))))"

section \<open>Quantities the specification names\<close>

text \<open>
  The tons leaving a plant on a day: the sum over every action sourced from it, delivered
  or rain-locked alike.
\<close>

definition dispatched :: "Action list \<Rightarrow> string \<Rightarrow> real" where
  "dispatched actions sid = sum_list (map amount_tons (filter (\<lambda>a. act_stp_id a = sid) actions))"

text \<open>
  The storage before the capacity check, \<open>max(0, current_storage + daily_output - dispatched)\<close>,
  and the part of it above the capacity.
\<close>

definition new_storage :: "STP \<Rightarrow> real \<Rightarrow> real" where
  "new_storage stp d = max 0 (current_storage stp + daily_output stp - d)"

definition overflow_of :: "STP \<Rightarrow> real \<Rightarrow> real" where
  "overflow_of stp d = max 0 (new_storage stp d - max_storage stp)"

text \<open>The farm and the load of a delivery option.\<close>

definition opt_farm_id :: "option_tuple \<Rightarrow> string" where
  "opt_farm_id c = fst (snd (snd c))"

definition opt_load :: "option_tuple \<Rightarrow> real" where
  "opt_load c = snd (snd (snd c))"

text \<open>
  A farm a plant may still consider: not yet assigned a delivery on this day, and in a
  zone that is not rain-locked.
\<close>

definition eligible :: "DataManager \<Rightarrow> string \<Rightarrow> string set \<Rightarrow> Farm \<Rightarrow> bool" where
  "eligible dm date visited farm \<longleftrightarrow>
     farm_id farm \<notin> visited \<and> is_rain_locked dm date (zone farm) = Inr False"

text \<open>
  The per-hectare nitrogen demand of a farm on a date, 0 when the date has no row or the
  row has no entry for the farm.
\<close>

definition demand_of :: "DataManager \<Rightarrow> string \<Rightarrow> string \<Rightarrow> real" where
  "demand_of dm date fid =
     (case map_of (n_demand_df dm) date of
        None \<Rightarrow> 0
      | Some row \<Rightarrow> (case row fid of None \<Rightarrow> 0 | Some x \<Rightarrow> x))"

text \<open>
  The Net Carbon Impact as the specification writes it, with the 10% application buffer:
  soil benefit plus nitrogen offset benefit minus transport cost minus leaching cost.
\<close>

definition nci_spec :: "real \<Rightarrow> real \<Rightarrow> real \<Rightarrow> real \<Rightarrow> real \<Rightarrow> real" where
  "nci_spec load_tons n_per_ton demand_per_ha area distance =
     load_tons * 1.37 * 200
     + min (load_tons * n_per_ton) (demand_per_ha * area) * 5
     - distance * 0.9 * of_int \<lceil>load_tons / 10\<rceil>
     - max 0 (load_tons * n_per_ton - demand_per_ha * area * 1.10) * 10"

text \<open>
  The acceptance rule of the walk, and the walk as a function of the ranked options and
  the plant's available material: it goes on while at least 1.0 ton is left, accepts an
  option that passes the rule for the lesser of its load and what is left, and stops at
  the first option that does not pass.
\<close>

definition accepts :: "STP \<Rightarrow> option_tuple \<Rightarrow> bool" where
  "accepts stp c \<longleftrightarrow> fst c > 0 \<or> current_storage stp / max_storage stp > 0.8"

fun accepted :: "STP \<Rightarrow> option_tuple list \<Rightarrow> real \<Rightarrow> Action list" where
  "accepted stp [] available = []"
| "accepted stp (c # rest) available =
     (if available < 1 then []
      else if accepts stp c
      then Action (stp_id stp) (opt_farm_id c) (min available (opt_load c))
             # accepted stp rest (available - min available (opt_load c))
      else [])"

text \<open>
  What the simulator needs of a proposed action to deliver it: its farm is known and not
  rain-locked, and the farm has a distance to the action's plant.
\<close>

definition proposal_ok :: "DataManager \<Rightarrow> string \<Rightarrow> Action \<Rightarrow> bool" where
  "proposal_ok dm date a \<longleftrightarrow>
     (\<exists>farm \<in> set (farms dm). farm_id farm = act_farm_id a
        \<and> is_rain_locked dm date (zone farm) = Inr False
        \<and> distances farm (act_stp_id a) \<noteq> None)"

text \<open>An action the simulator rejects: its farm is known and its zone rain-locked.\<close>

definition locked_action :: "DataManager \<Rightarrow> string \<Rightarrow> Action \<Rightarrow> bool" where
  "locked_action dm date a \<longleftrightarrow>
     (case lookup_farm dm (act_farm_id a) of
        None \<Rightarrow> False
      | Some farm \<Rightarrow> is_rain_locked dm date (zone farm) = Inr True)"

section \<open>Example data\<close>

text \<open>Concrete registries on which the theorems below are instantiated.\<close>

definition cfg0 :: Config where
  "cfg0 = \<lparr>truck_capacity = 10, emission_factor = 0.9, n_content = 25, synthetic_credit = 5,
     cfg_soil_credit = 0.2, leaching_penalty = 10, application_buffer_percent = 10,
     rain_threshold = 30, overflow_penalty = 1000, forecast_window = 5\<rparr>"


text \<open>
  Two plants and two farms. Plant A is at 90% fill, plant B nearly empty; farm F1 is in
  the dry zone Z, farm F2 in zone W, which is rain-locked on day d1 (40 mm in the window).
\<close>

definition stpA :: STP where
  "stpA = \<lparr>stp_id = ''A'', daily_output = 30, max_storage = 50, stp_lat = 0, stp_lon = 0,
           current_storage = 45\<rparr>"

definition stpB :: STP where
  "stpB = \<lparr>stp_id = ''B'', daily_output = 5, max_storage = 100, stp_lat = 1, stp_lon = 1,
           current_storage = 2\<rparr>"

definition farm1 :: Farm where
  "farm1 = \<lparr>farm_id = ''F1'', zone = ''Z'', area_ha = 2, farm_lat = 0, farm_lon = 1,
            distances = [''A'' \<mapsto> 20, ''B'' \<mapsto> 400]\<rparr>"

definition farm2 :: Farm where
  "farm2 = \<lparr>farm_id = ''F2'', zone = ''W'', area_ha = 3, farm_lat = 1, farm_lon = 0,
            distances = [''A'' \<mapsto> 30, ''B'' \<mapsto> 10]\<rparr>"

definition dm0 :: DataManager where
  "dm0 = \<lparr>config = cfg0, stps = [stpB, stpA], farms = [farm1, farm2],
     weather_df = \<lparr>weather_dates = [''d1'', ''d2'', ''d3''],
                   weather_cols = [''Z'' \<mapsto> [0, 1, 2], ''W'' \<mapsto> [20, 20, 0]]\<rparr>,
     n_demand_df = [(''d1'', [''F1'' \<mapsto> 50, ''F2'' \<mapsto> 10])]\<rparr>"

text \<open>
  Day d1 run on one delivery to F1 and one attempted delivery to the locked F2, and its
  outcome.
\<close>

definition actions0 :: "Action list" where
  "actions0 = [Action ''A'' ''F1'' 10, Action ''A'' ''F2'' 7]"

definition res0 :: DailyResult where
  "res0 = \<lparr>res_date = ''d1'', credits = 2500, emissions = 45, penalties = 16400,
     net_score = - 13945, delivered_tons = 10, overflow_tons = 8, banned_actions = 1\<rparr>"

definition dm0_after :: DataManager where
  "dm0_after = dm0\<lparr>stps := [stpB\<lparr>current_storage := 7\<rparr>, stpA\<lparr>current_storage := 50\<rparr>]\<rparr>"

text \<open>
  One dry zone with farms at the same distance from every plant and no demand data. Plant
  P holds 25 tons at low fill, plant Q has capacity 0, plant R is at 95% fill and plant S
  at 10%.
\<close>

definition farmG :: "string \<Rightarrow> real \<Rightarrow> Farm" where
  "farmG fid d = \<lparr>farm_id = fid, zone = ''Z'', area_ha = 1, farm_lat = 0, farm_lon = 0,
                  distances = (\<lambda>sid. Some d)\<rparr>"

definition stpP :: STP where
  "stpP = \<lparr>stp_id = ''P'', daily_output = 25, max_storage = 100, stp_lat = 0, stp_lon = 0,
           current_storage = 0\<rparr>"

definition stpQ :: STP where
  "stpQ = \<lparr>stp_id = ''Q'', daily_output = 5, max_storage = 0, stp_lat = 0, stp_lon = 0,
           current_storage = 0\<rparr>"

definition stpR :: STP where
  "stpR = \<lparr>stp_id = ''R'', daily_output = 5, max_storage = 100, stp_lat = 0, stp_lon = 0,
           current_storage = 95\<rparr>"

definition stpS :: STP where
  "stpS = \<lparr>stp_id = ''S'', daily_output = 5, max_storage = 100, stp_lat = 0, stp_lon = 0,
           current_storage = 10\<rparr>"

definition dm1 :: DataManager where
  "dm1 = \<lparr>config = cfg0, stps = [stpP],
     farms = [farmG ''G1'' 10, farmG ''G2'' 20, farmG ''G3'' 30, farmG ''G4'' 40],
     weather_df = \<lparr>weather_dates = [''d1''], weather_cols = [''Z'' \<mapsto> [0]]\<rparr>,
     n_demand_df = []\<rparr>"

definition options1 :: "option_tuple list" where
  "options1 = [(231, 10, ''G1'', 10), (222, 20, ''G2'', 10), (213, 30, ''G3'', 10),
               (204, 40, ''G4'', 10)]"

definition actions1 :: "Action list" where
  "actions1 = [Action ''P'' ''G1'' 10, Action ''P'' ''G2'' 10, Action ''P'' ''G3'' 5]"

definition dm2 :: DataManager where
  "dm2 = dm1\<lparr>stps := [stpQ]\<rparr>"

definition dm3 :: "STP \<Rightarrow> DataManager" where
  "dm3 stp = dm1\<lparr>stps := [stp], farms := [farmG ''H'' 1000]\<rparr>"

section \<open>The rain-lock window\<close>





text \<open>
  Outside the theorem's hypothesis: a zone without a rainfall column raises \<open>KeyError\<close>
  when the date is in the data, and a date that is not in the data gives an all-zero
  forecast whatever the zone.
\<close>

lemma is_rain_locked_unknown_zone:
  assumes "index_of (weather_dates (weather_df dm)) date = Some start"
    and "weather_cols (weather_df dm) z = None"
  shows "is_rain_locked dm date z = Inl KeyError"
  using assms by (simp add: is_rain_locked_def get_weather_forecast_def)

lemma is_rain_locked_unknown_date:
  assumes "index_of (weather_dates (weather_df dm)) date = None"
  shows "is_rain_locked dm date z = Inr (rain_threshold (config dm) < 0)"
  using assms by (simp add: is_rain_locked_def get_weather_forecast_def sum_list_replicate)

section \<open>Evaluating the example\<close>

lemmas eval_defs = dm0_def cfg0_def stpA_def stpB_def farm1_def farm2_def
  run_day_def process_action_def lookup_farm_def lookup_stp_def is_rain_locked_def
  get_weather_forecast_def get_daily_demand_per_ha_def get_or_def acc0_def dict_get_def
  update_stp_def buffer_percent_def Let_def sum_list_replicate

lemma run_day_example: "run_day dm0 ''d1'' actions0 = Inr (dm0_after, res0)"
  by (simp add: eval_defs actions0_def res0_def dm0_after_def)

section \<open>End-of-day storage\<close>

lemma map_of_dict_add:
  "map_of (dict_add d k v) = (map_of d)(k \<mapsto> dict_get d k 0 + v)"
  by (induction d k v rule: dict_add.induct) (auto simp: dict_get_def fun_eq_iff)

lemma dict_get_dict_add:
  "dict_get (dict_add d k v) k' 0 = dict_get d k' 0 + (if k = k' then v else 0)"
  by (simp add: dict_get_def map_of_dict_add)

lemma process_action_dispatches:
  assumes "process_action dm date acc a = Inr acc'"
  shows "dict_get (stp_dispatches acc') sid 0 =
         dict_get (stp_dispatches acc) sid 0 + (if act_stp_id a = sid then amount_tons a else 0)"
  using assms
  by (auto simp: process_action_def Let_def dict_get_dict_add
           split: option.splits sum.splits bool.splits if_splits)

lemma process_actions_dispatches:
  assumes "process_actions dm date acc actions = Inr acc'"
  shows "dict_get (stp_dispatches acc') sid 0 =
         dict_get (stp_dispatches acc) sid 0 + dispatched actions sid"
  using assms
proof (induction actions arbitrary: acc)
  case Nil
  then show ?case by (simp add: dispatched_def)
next
  case (Cons a rest)
  then obtain acc1 where s1: "process_action dm date acc a = Inr acc1"
    and s2: "process_actions dm date acc1 rest = Inr acc'"
    by (auto split: sum.splits)
  show ?case
    using Cons.IH[OF s2] process_action_dispatches[OF s1, of sid]
    by (simp add: dispatched_def)
qed

lemma acc0_dispatch: "dict_get (stp_dispatches acc0) sid 0 = 0"
  by (simp add: acc0_def dict_get_def)

lemma update_stp_eq:
  "update_stp cfg d stp st =
     (stp\<lparr>current_storage := min (max_storage stp) (new_storage stp (dict_get d (stp_id stp) 0))\<rparr>,
      fst st + overflow_of stp (dict_get d (stp_id stp) 0),
      snd st + overflow_of stp (dict_get d (stp_id stp) 0) * overflow_penalty cfg)"
  by (simp add: update_stp_def Let_def new_storage_def overflow_of_def min_def max_def)

lemma process_stps_eq:
  "process_stps cfg d ss st =
     (map (\<lambda>stp. stp\<lparr>current_storage :=
              min (max_storage stp) (new_storage stp (dict_get d (stp_id stp) 0))\<rparr>) ss,
      fst st + (\<Sum>stp\<leftarrow>ss. overflow_of stp (dict_get d (stp_id stp) 0)),
      snd st + (\<Sum>stp\<leftarrow>ss. overflow_of stp (dict_get d (stp_id stp) 0)) * overflow_penalty cfg)"
  by (induction ss arbitrary: st) (simp_all add: update_stp_eq algebra_simps)

text \<open>What a successful \<open>run_day\<close> is made of: the three loops in sequence.\<close>

lemma run_day_InrE:
  assumes "run_day dm date actions = Inr (dm', res)"
  obtains acc daily_credits pen where
    "process_actions dm date acc0 actions = Inr acc"
    "process_farms dm (get_daily_demand_per_ha dm date) (farm_deliveries acc)
       (0, daily_penalties acc) = Inr (daily_credits, pen)"
    "dm' = dm\<lparr>stps := fst (process_stps (config dm) (stp_dispatches acc) (stps dm) (0, pen))\<rparr>"
    "res = \<lparr>res_date = date, credits = daily_credits, emissions = daily_emissions acc,
       penalties = snd (snd (process_stps (config dm) (stp_dispatches acc) (stps dm) (0, pen))),
       net_score = daily_credits - daily_emissions acc
         - snd (snd (process_stps (config dm) (stp_dispatches acc) (stps dm) (0, pen))),
       delivered_tons = daily_delivered acc,
       overflow_tons = fst (snd (process_stps (config dm) (stp_dispatches acc) (stps dm) (0, pen))),
       banned_actions = banned_count acc\<rparr>"
  using assms by (auto simp: run_day_def split: sum.splits prod.splits)

text \<open>
  Claim C1. After a day of \<open>run_day\<close>, every plant's storage is
  \<open>max(0, current_storage + daily_output - dispatched)\<close> cut off at \<open>max_storage\<close>; the part cut
  off is added to \<open>overflow_tons\<close> and charged at the overflow penalty; so the storage never
  exceeds the capacity, and it is not negative for a plant whose capacity is not negative.
\<close>

theorem run_day_storage:
  assumes "run_day dm date actions = Inr (dm', res)"
  shows "stps dm' = map (\<lambda>stp. stp\<lparr>current_storage :=
             (if new_storage stp (dispatched actions (stp_id stp)) > max_storage stp
              then max_storage stp
              else new_storage stp (dispatched actions (stp_id stp)))\<rparr>) (stps dm)
    \<and> overflow_tons res = (\<Sum>stp\<leftarrow>stps dm. overflow_of stp (dispatched actions (stp_id stp)))
    \<and> (\<exists>acc daily_credits pen.
           process_actions dm date acc0 actions = Inr acc \<and>
           process_farms dm (get_daily_demand_per_ha dm date) (farm_deliveries acc)
             (0, daily_penalties acc) = Inr (daily_credits, pen) \<and>
           penalties res = pen + overflow_tons res * overflow_penalty (config dm))
    \<and> (\<forall>stp' \<in> set (stps dm'). current_storage stp' \<le> max_storage stp' \<and>
           (0 \<le> max_storage stp' \<longrightarrow> 0 \<le> current_storage stp'))"
proof -
  from assms obtain acc daily_credits pen where
    pa: "process_actions dm date acc0 actions = Inr acc"
    and pf: "process_farms dm (get_daily_demand_per_ha dm date) (farm_deliveries acc)
               (0, daily_penalties acc) = Inr (daily_credits, pen)"
    and dm': "dm' = dm\<lparr>stps := fst (process_stps (config dm) (stp_dispatches acc) (stps dm) (0, pen))\<rparr>"
    and res: "res = \<lparr>res_date = date, credits = daily_credits, emissions = daily_emissions acc,
       penalties = snd (snd (process_stps (config dm) (stp_dispatches acc) (stps dm) (0, pen))),
       net_score = daily_credits - daily_emissions acc
         - snd (snd (process_stps (config dm) (stp_dispatches acc) (stps dm) (0, pen))),
       delivered_tons = daily_delivered acc,
       overflow_tons = fst (snd (process_stps (config dm) (stp_dispatches acc) (stps dm) (0, pen))),
       banned_actions = banned_count acc\<rparr>"
    by (rule run_day_InrE)
  have d: "dict_get (stp_dispatches acc) sid 0 = dispatched actions sid" for sid
    using process_actions_dispatches[OF pa, of sid] by (simp add: acc0_dispatch)
  from dm' have s: "stps dm' = map (\<lambda>stp. stp\<lparr>current_storage :=
             (if new_storage stp (dispatched actions (stp_id stp)) > max_storage stp
              then max_storage stp
              else new_storage stp (dispatched actions (stp_id stp)))\<rparr>) (stps dm)"
    by (simp add: process_stps_eq d min_def not_le cong: map_cong)
  from res have o: "overflow_tons res =
      (\<Sum>stp\<leftarrow>stps dm. overflow_of stp (dispatched actions (stp_id stp)))"
    by (simp add: process_stps_eq d)
  from res have "penalties res = pen + overflow_tons res * overflow_penalty (config dm)"
    by (simp add: process_stps_eq d)
  with pa pf have p: "\<exists>acc daily_credits pen.
           process_actions dm date acc0 actions = Inr acc \<and>
           process_farms dm (get_daily_demand_per_ha dm date) (farm_deliveries acc)
             (0, daily_penalties acc) = Inr (daily_credits, pen) \<and>
           penalties res = pen + overflow_tons res * overflow_penalty (config dm)"
    by blast
  have b: "\<forall>stp' \<in> set (stps dm'). current_storage stp' \<le> max_storage stp' \<and>
           (0 \<le> max_storage stp' \<longrightarrow> 0 \<le> current_storage stp')"
    unfolding s by (auto simp: new_storage_def)
  from s o p b show ?thesis by blast
qed

text \<open>
  On the example day plant A holds 45 + 30 tons and sends 17: the 58 tons left exceed its
  50 tons of capacity, so 8 tons overflow and its storage is 50; plant B ends at 7 of 100.
\<close>

theorem run_day_storage_witness:
  "run_day dm0 ''d1'' actions0 = Inr (dm0_after, res0)
   \<and> map current_storage (stps dm0_after) = [7, 50]
   \<and> map max_storage (stps dm0_after) = [100, 50]
   \<and> overflow_tons res0 = overflow_of stpB 0 + overflow_of stpA 17
   \<and> list_all (\<lambda>stp'. 0 \<le> current_storage stp' \<and> current_storage stp' \<le> max_storage stp')
        (stps dm0_after)"
  using run_day_storage[OF run_day_example] run_day_example
  by (simp add: dm0_after_def dm0_def stpA_def stpB_def actions0_def dispatched_def)

section \<open>A rain-locked action\<close>



text \<open>
  Over the whole list: the result's rejection count is the number of rain-locked actions,
  and its delivered tons are those of the other actions.
\<close>

lemma process_action_counts:
  assumes "process_action dm date acc a = Inr acc'"
  shows "banned_count acc' = banned_count acc + (if locked_action dm date a then 1 else 0)"
    and "daily_delivered acc' = daily_delivered acc
           + (if locked_action dm date a then 0 else amount_tons a)"
  using assms
  by (auto simp: process_action_def locked_action_def Let_def
           split: option.splits sum.splits bool.splits if_splits)

lemma process_actions_counts:
  assumes "process_actions dm date acc actions = Inr acc'"
  shows "banned_count acc' = banned_count acc + length (filter (locked_action dm date) actions)
    \<and> daily_delivered acc' = daily_delivered acc
         + sum_list (map amount_tons (filter (\<lambda>a. \<not> locked_action dm date a) actions))"
  using assms
proof (induction actions arbitrary: acc)
  case Nil
  then show ?case by simp
next
  case (Cons a rest)
  then obtain acc1 where s1: "process_action dm date acc a = Inr acc1"
    and s2: "process_actions dm date acc1 rest = Inr acc'"
    by (auto split: sum.splits)
  from Cons.IH[OF s2] process_action_counts[OF s1] show ?case by simp
qed

lemma run_day_counts:
  assumes "run_day dm date actions = Inr (dm', res)"
  shows "banned_actions res = length (filter (locked_action dm date) actions)
    \<and> delivered_tons res
        = sum_list (map amount_tons (filter (\<lambda>a. \<not> locked_action dm date a) actions))"
proof -
  from assms obtain acc daily_credits pen where
    pa: "process_actions dm date acc0 actions = Inr acc"
    and "process_farms dm (get_daily_demand_per_ha dm date) (farm_deliveries acc)
               (0, daily_penalties acc) = Inr (daily_credits, pen)"
    and "dm' = dm\<lparr>stps := fst (process_stps (config dm) (stp_dispatches acc) (stps dm) (0, pen))\<rparr>"
    and res: "res = \<lparr>res_date = date, credits = daily_credits, emissions = daily_emissions acc,
       penalties = snd (snd (process_stps (config dm) (stp_dispatches acc) (stps dm) (0, pen))),
       net_score = daily_credits - daily_emissions acc
         - snd (snd (process_stps (config dm) (stp_dispatches acc) (stps dm) (0, pen))),
       delivered_tons = daily_delivered acc,
       overflow_tons = fst (snd (process_stps (config dm) (stp_dispatches acc) (stps dm) (0, pen))),
       banned_actions = banned_count acc\<rparr>"
    by (rule run_day_InrE)
  from res have "banned_actions res = banned_count acc" "delivered_tons res = daily_delivered acc"
    by simp_all
  with process_actions_counts[OF pa] show ?thesis by (simp add: acc0_def)
qed

section \<open>What a day changes\<close>



section \<open>The candidates of a plant\<close>

lemmas solve_defs = solve_day_def solve_stp_def sort_options_def sorted_stps_def triage_key_def
  soil_credit_def transport_cost_per_km_def

lemmas eval1_defs = dm1_def dm2_def dm3_def stpP_def stpQ_def stpR_def stpS_def farmG_def cfg0_def
  is_rain_locked_def get_weather_forecast_def get_daily_demand_per_ha_def get_or_def
  buffer_percent_def Let_def sum_list_replicate

text \<open>The options of a plant are the eligible farms, in the order of the farm registry.\<close>

lemma delivery_options_farms:
  "delivery_options dm date dem stp av vis fs = Inr opts \<Longrightarrow>
   map opt_farm_id opts = map farm_id (filter (eligible dm date vis) fs)"
  by (induction fs arbitrary: opts)
     (auto simp: eligible_def opt_farm_id_def Let_def
           split: if_splits sum.splits bool.splits option.splits)

lemma delivery_options_sound:
  "delivery_options dm date dem stp av vis fs = Inr opts \<Longrightarrow> c \<in> set opts \<Longrightarrow>
   \<exists>farm \<in> set fs. \<exists>d. eligible dm date vis farm \<and> distances farm (stp_id stp) = Some d
     \<and> c = (min av 10 * 1.37 * soil_credit
            + min (min av 10 * n_content (config dm)) (get_or dem (farm_id farm) 0 * area_ha farm) * 5
            - d * transport_cost_per_km * of_int \<lceil>min av 10 / 10\<rceil>
            - max 0 (min av 10 * n_content (config dm)
                     - get_or dem (farm_id farm) 0 * area_ha farm * (1 + buffer_percent (config dm))) * 10,
            d, farm_id farm, min av 10)"
  by (induction fs arbitrary: opts)
     (auto simp: eligible_def Let_def
           split: if_splits sum.splits bool.splits option.splits)

lemma options_example0:
  "delivery_options dm0 ''d1'' (get_daily_demand_per_ha dm0 ''d1'') stpA 75 {} (farms dm0) =
     Inr [(1822, 20, ''F1'', 10)]"
  by (simp add: eval_defs solve_defs)

lemma options_example1:
  "delivery_options dm1 ''d1'' (get_daily_demand_per_ha dm1 ''d1'') stpP
     (current_storage stpP + daily_output stpP) {} (farms dm1) = Inr options1"
  by (simp add: eval1_defs solve_defs options1_def)

text \<open>
  Claim C8. Every option scored for a plant carries the load \<open>min(available, 10)\<close>, the
  distance from the plant to its farm, and as Net Carbon Impact the value of the
  specification's formula at that load, the configured nitrogen content, the farm's
  per-hectare demand of the date (0 without a demand row), the farm's area and that
  distance, when the configured application buffer is 10%.
\<close>

theorem nci_formula:
  assumes "delivery_options dm date (get_daily_demand_per_ha dm date) stp av vis fs = Inr opts"
    and "c \<in> set opts"
    and "application_buffer_percent (config dm) = 10"
  shows "\<exists>farm \<in> set fs. \<exists>d. distances farm (stp_id stp) = Some d
    \<and> opt_load c = min av 10 \<and> opt_farm_id c = farm_id farm \<and> fst (snd c) = d
    \<and> fst c = nci_spec (min av 10) (n_content (config dm)) (demand_of dm date (farm_id farm))
                 (area_ha farm) d"
proof -
  have dem: "get_or (get_daily_demand_per_ha dm date) fid 0 = demand_of dm date fid" for fid
    by (simp add: get_or_def get_daily_demand_per_ha_def demand_of_def split: option.splits)
  from delivery_options_sound[OF assms(1,2)] assms(3) show ?thesis
    by (fastforce simp: dem nci_spec_def soil_credit_def transport_cost_per_km_def
        buffer_percent_def opt_load_def opt_farm_id_def algebra_simps)
qed

text \<open>
  Plant A and farm F1, 20 km away, 2 ha at 50 kg/ha: a 10-ton load carries 250 kg of
  nitrogen against a demand of 100 kg, so the impact is 2740 + 500 - 18 - 1400 = 1822.
\<close>

theorem nci_formula_witness:
  "application_buffer_percent (config dm0) = 10
   \<and> (\<exists>farm \<in> set (farms dm0). \<exists>d. distances farm (stp_id stpA) = Some d
         \<and> opt_load (1822, 20, ''F1'', 10) = min 75 10
         \<and> opt_farm_id (1822, 20, ''F1'', 10) = farm_id farm
         \<and> fst (snd (1822 :: real, 20 :: real, ''F1'', 10 :: real)) = d
         \<and> fst (1822 :: real, 20 :: real, ''F1'', 10 :: real) =
             nci_spec (min 75 10) (n_content (config dm0))
               (demand_of dm0 ''d1'' (farm_id farm)) (area_ha farm) d)
   \<and> nci_spec 10 25 50 2 20 = 1822"
proof -
  have b: "application_buffer_percent (config dm0) = 10" by (simp add: dm0_def cfg0_def)
  have m: "(1822, 20, ''F1'', 10) \<in> set [(1822, 20, ''F1'', 10 :: real)]" by simp
  have n: "nci_spec 10 25 50 2 20 = 1822" by (simp add: nci_spec_def)
  from nci_formula[OF options_example0 m b] b n show ?thesis by blast
qed

section \<open>The acceptance walk\<close>

text \<open>Without an error, the loop over the ranked options computes \<open>accepted\<close>.\<close>

lemma dispatch_accepted:
  "dispatch stp opts (acts, vis, av) = Inr r \<Longrightarrow>
   r = (acts @ accepted stp opts av,
        vis \<union> act_farm_id ` set (accepted stp opts av),
        av - sum_list (map amount_tons (accepted stp opts av)))"
proof (induction opts arbitrary: acts vis av)
  case Nil
  then show ?case by simp
next
  case (Cons c rest)
  obtain n d f l where c: "c = (n, d, f, l)" by (cases c)
  show ?case
  proof (cases "av < 1")
    case True
    with Cons.prems c show ?thesis by simp
  next
    case av: False
    show ?thesis
    proof (cases "accepts stp c")
      case True
      with Cons.prems c av have
        "dispatch stp rest (acts @ [Action (stp_id stp) f (min av l)], insert f vis, av - min av l) = Inr r"
        by (auto simp: accepts_def Let_def split: if_splits)
      from Cons.IH[OF this] True av c show ?thesis
        by (simp add: opt_farm_id_def opt_load_def)
    next
      case False
      with Cons.prems c av show ?thesis
        by (auto simp: accepts_def Let_def split: if_splits)
    qed
  qed
qed

lemma dispatch_total:
  "max_storage stp \<noteq> 0 \<Longrightarrow> \<exists>r. dispatch stp opts (acts, vis, av) = Inr r"
  by (induction stp opts "(acts, vis, av)" arbitrary: acts vis av rule: dispatch.induct)
     (auto simp: Let_def)


lemma accepted_stp_id: "a \<in> set (accepted stp opts av) \<Longrightarrow> act_stp_id a = stp_id stp"
  by (induction stp opts av rule: accepted.induct) (auto split: if_splits)

lemma accepted_farms_prefix:
  "map act_farm_id (accepted stp opts av) =
   take (length (accepted stp opts av)) (map opt_farm_id opts)"
  by (induction stp opts av rule: accepted.induct) auto

lemma accepted_amount_ge:
  "\<forall>c \<in> set opts. 1 \<le> opt_load c \<Longrightarrow> a \<in> set (accepted stp opts av) \<Longrightarrow> 1 \<le> amount_tons a"
  by (induction stp opts av rule: accepted.induct) (auto split: if_splits)

lemma accepted_sum_le:
  "0 \<le> av \<Longrightarrow> sum_list (map amount_tons (accepted stp opts av)) \<le> av"
proof (induction stp opts av rule: accepted.induct)
  case (1 stp available)
  then show ?case by simp
next
  case (2 stp c rest available)
  show ?case
  proof (cases "\<not> available < 1 \<and> accepts stp c")
    case True
    then have "0 \<le> available - min available (opt_load c)" by simp
    with 2 True have "sum_list (map amount_tons
        (accepted stp rest (available - min available (opt_load c))))
        \<le> available - min available (opt_load c)"
      by blast
    with True show ?thesis by simp
  next
    case False
    with 2 show ?thesis by auto
  qed
qed

lemma accepted_prefix_accepts:
  "c \<in> set (take (length (accepted stp opts av)) opts) \<Longrightarrow> accepts stp c"
  by (induction stp opts av rule: accepted.induct) (auto split: if_splits)

lemma accepted_stop:
  "length (accepted stp opts av) < length opts \<Longrightarrow>
   av - sum_list (map amount_tons (accepted stp opts av)) < 1
   \<or> \<not> accepts stp (opts ! length (accepted stp opts av))"
  by (induction stp opts av rule: accepted.induct) (auto split: if_splits)

lemma distinct_map_insort_key:
  "distinct (map g (insort_key k x xs)) = (g x \<notin> g ` set xs \<and> distinct (map g xs))"
  by (induction xs) (auto simp: set_insort_key)

lemma distinct_map_sort_key:
  "distinct (map g (sort_key k xs)) = distinct (map g xs)"
  by (induction xs) (auto simp: distinct_map_insort_key)

lemma set_sort_options: "set (sort_options opts) = set opts"
  by (simp add: sort_options_def)

lemma sorted_sort_options: "sorted_wrt (\<lambda>c c'. fst c' \<le> fst c) (sort_options opts)"
proof -
  have "sorted (map (\<lambda>x. - fst x) (sort_key (\<lambda>x. - fst x) opts))" by (rule sorted_sort_key)
  then show ?thesis by (simp add: sort_options_def sorted_map)
qed

lemma solve_stp_cases:
  assumes "solve_stp dm date dem stp (acts, vis) = Inr (acts', vis')"
  shows "(current_storage stp + daily_output stp < 1 \<and> acts' = acts \<and> vis' = vis)
    \<or> (1 \<le> current_storage stp + daily_output stp \<and>
        (\<exists>opts. delivery_options dm date dem stp (current_storage stp + daily_output stp) vis
                  (farms dm) = Inr opts
           \<and> acts' = acts @ accepted stp (sort_options opts) (current_storage stp + daily_output stp)
           \<and> vis' = vis \<union> act_farm_id `
                 set (accepted stp (sort_options opts) (current_storage stp + daily_output stp))))"
proof (cases "current_storage stp + daily_output stp < 1")
  case True
  with assms show ?thesis by (simp add: solve_stp_def)
next
  case False
  with assms obtain opts r where
    o: "delivery_options dm date dem stp (current_storage stp + daily_output stp) vis (farms dm)
          = Inr opts"
    and d: "dispatch stp (sort_options opts) (acts, vis, current_storage stp + daily_output stp) = Inr r"
    and r: "(acts', vis') = (fst r, fst (snd r))"
    by (auto simp: solve_stp_def Let_def split: sum.splits prod.splits)
  from dispatch_accepted[OF d] r o False show ?thesis by auto
qed

text \<open>
  Claim C4, as amended. A plant with non-zero capacity and at least 1.0 ton available
  walks its options in descending order of Net Carbon Impact. While at least 1.0 ton of
  its material is left, an option is accepted (an action is emitted, the farm is marked
  visited, the material left is reduced) if its impact is positive or the plant's fill
  ratio exceeds 0.8; the walk ends at the first option that fails both, and also as soon
  as less than 1.0 ton is left. So the accepted farms are the first \<open>k\<close> of the ranking,
  every one of them passes the rule, and the next one, if any, either fails it or finds
  less than 1.0 ton left. A plant above 0.8 fill with an option dispatches at least one
  delivery whatever the impacts; a plant at or below 0.8 whose impacts are all \<open>\<le> 0\<close>
  emits no action.
\<close>

theorem greedy_walk:
  assumes ms: "max_storage stp \<noteq> 0"
    and av: "1 \<le> current_storage stp + daily_output stp"
    and opts: "delivery_options dm date dem stp (current_storage stp + daily_output stp) vis (farms dm)
                 = Inr opts"
  shows "\<exists>new k. solve_stp dm date dem stp (acts, vis) = Inr (acts @ new, vis \<union> act_farm_id ` set new)
    \<and> new = accepted stp (sort_options opts) (current_storage stp + daily_output stp)
    \<and> sorted_wrt (\<lambda>c c'. fst c' \<le> fst c) (sort_options opts)
    \<and> set (sort_options opts) = set opts \<and> length (sort_options opts) = length opts
    \<and> k = length new
    \<and> map act_farm_id new = map opt_farm_id (take k (sort_options opts))
    \<and> (\<forall>c \<in> set (take k (sort_options opts)). accepts stp c)
    \<and> (k < length opts \<longrightarrow>
          current_storage stp + daily_output stp - sum_list (map amount_tons new) < 1
          \<or> \<not> accepts stp (sort_options opts ! k))
    \<and> (0.8 < current_storage stp / max_storage stp \<and> opts \<noteq> [] \<longrightarrow> new \<noteq> [])
    \<and> (current_storage stp / max_storage stp \<le> 0.8 \<and> (\<forall>c \<in> set opts. fst c \<le> 0) \<longrightarrow> new = [])"
proof -
  let ?av = "current_storage stp + daily_output stp"
  let ?w = "sort_options opts"
  let ?new = "accepted stp ?w ?av"
  from dispatch_total[OF ms, of ?w acts vis ?av] obtain r where
    r: "dispatch stp ?w (acts, vis, ?av) = Inr r" by blast
  from dispatch_accepted[OF r] have r': "r = (acts @ ?new, vis \<union> act_farm_id ` set ?new,
      ?av - sum_list (map amount_tons ?new))" .
  from av opts r have 1: "solve_stp dm date dem stp (acts, vis) = Inr (acts @ ?new, vis \<union> act_farm_id ` set ?new)"
    unfolding r' by (simp add: solve_stp_def Let_def)
  have len: "length ?w = length opts" by (simp add: sort_options_def)
  have 2: "map act_farm_id ?new = map opt_farm_id (take (length ?new) ?w)"
    by (simp add: accepted_farms_prefix[of stp ?w ?av] take_map)
  have 3: "\<forall>c \<in> set (take (length ?new) ?w). accepts stp c"
    using accepted_prefix_accepts by blast
  have 4: "length ?new < length opts \<longrightarrow>
          ?av - sum_list (map amount_tons ?new) < 1 \<or> \<not> accepts stp (?w ! length ?new)"
    using accepted_stop[of stp ?w ?av] len by simp
  have 5: "?new \<noteq> []" if "0.8 < current_storage stp / max_storage stp" "opts \<noteq> []"
  proof -
    from that(2) len obtain c rest where w: "?w = c # rest" by (cases ?w) auto
    from that(1) have "accepts stp c" by (simp add: accepts_def)
    with av show ?thesis unfolding w by simp
  qed
  have 6: "?new = []" if "current_storage stp / max_storage stp \<le> 0.8" "\<forall>c \<in> set opts. fst c \<le> 0"
  proof (cases ?w)
    case Nil
    then show ?thesis by simp
  next
    case (Cons c rest)
    then have "c \<in> set opts" using set_sort_options[of opts] by (metis list.set_intros(1))
    with that have "\<not> accepts stp c" by (fastforce simp: accepts_def)
    then show ?thesis unfolding Cons by simp
  qed
  from 1 sorted_sort_options set_sort_options len 2 3 4 5 6 show ?thesis by blast
qed

lemma accepted_example1: "accepted stpP (sort_options options1) 25 = actions1"
  by (simp add: sort_options_def options1_def actions1_def accepts_def stpP_def
      opt_farm_id_def opt_load_def)

text \<open>
  Plant P has 25 tons and four farms with positive impact: it sends 10, 10 and 5 tons to
  the three best and stops with nothing left.
\<close>

theorem greedy_walk_witness:
  "max_storage stpP \<noteq> 0 \<and> 1 \<le> current_storage stpP + daily_output stpP
   \<and> solve_stp dm1 ''d1'' (get_daily_demand_per_ha dm1 ''d1'') stpP ([], {})
       = Inr (actions1, {''G1'', ''G2'', ''G3''})
   \<and> list_all (accepts stpP) (take 3 (sort_options options1))"
proof -
  have ms: "max_storage stpP \<noteq> 0" and av: "1 \<le> current_storage stpP + daily_output stpP"
    by (simp_all add: stpP_def)
  have a: "accepted stpP (sort_options options1) (current_storage stpP + daily_output stpP) = actions1"
    using accepted_example1 by (simp add: stpP_def)
  from greedy_walk[OF ms av options_example1, of "[]"] obtain new k where
    s: "solve_stp dm1 ''d1'' (get_daily_demand_per_ha dm1 ''d1'') stpP ([], {})
          = Inr ([] @ new, {} \<union> act_farm_id ` set new)"
    and n: "new = accepted stpP (sort_options options1) (current_storage stpP + daily_output stpP)"
    and k: "k = length new"
    and p: "\<forall>c \<in> set (take k (sort_options options1)). accepts stpP c"
    by blast
  from n a have new: "new = actions1" by simp
  with k have k3: "k = 3" by (simp add: actions1_def)
  from s new have "solve_stp dm1 ''d1'' (get_daily_demand_per_ha dm1 ''d1'') stpP ([], {})
       = Inr (actions1, {''G1'', ''G2'', ''G3''})"
    by (simp add: actions1_def)
  with ms av p k3 show ?thesis by (simp add: list_all_iff)
qed

text \<open>
  The claim as stated fails on the same day: farm G4 is an option of plant P with impact
  204, which is positive, and it is not accepted, because the plant's 25 tons are used up
  by the three options ranked before it.
\<close>

theorem greedy_walk_counterexample:
  "delivery_options dm1 ''d1'' (get_daily_demand_per_ha dm1 ''d1'') stpP 25 {} (farms dm1)
     = Inr [(231, 10, ''G1'', 10), (222, 20, ''G2'', 10), (213, 30, ''G3'', 10),
            (204, 40, ''G4'', 10)]
   \<and> (0::real) < fst (204 :: real, 40 :: real, ''G4'', 10 :: real)
   \<and> solve_day dm1 ''d1'' =
       Inr [Action ''P'' ''G1'' 10, Action ''P'' ''G2'' 10, Action ''P'' ''G3'' 5]
   \<and> ''G4'' \<notin> act_farm_id ` set [Action ''P'' ''G1'' 10, Action ''P'' ''G2'' 10,
                                    Action ''P'' ''G3'' 5]"
  by (simp add: eval1_defs solve_defs)

text \<open>
  The two scenarios of the specification. Plant R at 95% fill, its only farm 1000 km away
  with impact 2740 - 2500 - 900 = -660: it dispatches. Plant S at 10% fill with the same
  farm: it does not.
\<close>

lemma panic_mode_example: "solve_day (dm3 stpR) ''d1'' = Inr [Action ''R'' ''H'' 10]"
  by (simp add: eval1_defs solve_defs)

lemma low_fill_example: "solve_day (dm3 stpS) ''d1'' = Inr []"
  by (simp add: eval1_defs solve_defs)

section \<open>A plant with zero capacity\<close>

lemma triage_key_zero_capacity: "max_storage s = 0 \<Longrightarrow> triage_key s = 0"
  by (simp add: triage_key_def)

text \<open>
  The triage key guards the division, the acceptance walk does not: a plant with capacity
  0, at least 1.0 ton available and an option to walk raises \<open>ZeroDivisionError\<close>.
\<close>

lemma zero_capacity_raises:
  assumes "max_storage stp = 0"
    and "1 \<le> current_storage stp + daily_output stp"
    and "delivery_options dm date dem stp (current_storage stp + daily_output stp) vis (farms dm)
           = Inr opts"
    and "opts \<noteq> []"
  shows "solve_stp dm date dem stp (acts, vis) = Inl ZeroDivisionError"
proof -
  from assms(4) have "sort_options opts \<noteq> []"
    using set_sort_options[of opts] by (metis set_empty)
  then obtain c rest where w: "sort_options opts = c # rest"
    by (cases "sort_options opts") auto
  obtain n d f l where c: "c = (n, d, f, l)" by (cases c)
  from assms(1-3) show ?thesis by (simp add: solve_stp_def Let_def w c)
qed

text \<open>
  Claim C2 says that \<open>solve_day\<close> completes when a plant has \<open>max_storage = 0\<close>, at
  least 1.0 ton available and an eligible farm. Plant Q has capacity 0 and produces 5
  tons, and farm G1 is dry and unvisited: \<open>solve_day\<close> does not return an action list, it
  raises at the fill ratio of the walk.
\<close>

theorem solve_day_zero_capacity: "solve_day dm2 ''d1'' = Inl ZeroDivisionError"
  by (simp add: eval1_defs solve_defs)

section \<open>The action list of a day\<close>

lemma solve_stp_new:
  assumes "solve_stp dm date dem stp (acts, vis) = Inr (acts', vis')"
  shows "\<exists>new. acts' = acts @ new \<and> vis' = vis \<union> act_farm_id ` set new
     \<and> (\<forall>a \<in> set new. act_stp_id a = stp_id stp \<and> 1 \<le> amount_tons a
           \<and> (\<exists>farm \<in> set (farms dm). farm_id farm = act_farm_id a
                 \<and> eligible dm date vis farm \<and> distances farm (stp_id stp) \<noteq> None))
     \<and> sum_list (map amount_tons new) \<le> max 0 (current_storage stp + daily_output stp)
     \<and> (distinct (map farm_id (farms dm)) \<longrightarrow> distinct (map act_farm_id new))"
  using solve_stp_cases[OF assms]
proof (elim disjE conjE exE)
  assume "acts' = acts" "vis' = vis"
  then show ?thesis by simp
next
  fix opts
  let ?av = "current_storage stp + daily_output stp"
  let ?new = "accepted stp (sort_options opts) ?av"
  assume av: "1 \<le> ?av"
    and o: "delivery_options dm date dem stp ?av vis (farms dm) = Inr opts"
    and a: "acts' = acts @ ?new" and v: "vis' = vis \<union> act_farm_id ` set ?new"
  have ids: "set (map act_farm_id ?new) \<subseteq> set (map opt_farm_id opts)"
    using set_take_subset[of "length ?new" "map opt_farm_id (sort_options opts)"]
    by (simp only: accepted_farms_prefix[of stp "sort_options opts" ?av] set_map set_sort_options)
  have load: "\<forall>c \<in> set (sort_options opts). 1 \<le> opt_load c"
    using delivery_options_sound[OF o] av by (fastforce simp: set_sort_options opt_load_def)
  have p: "act_stp_id x = stp_id stp \<and> 1 \<le> amount_tons x
           \<and> (\<exists>farm \<in> set (farms dm). farm_id farm = act_farm_id x
                 \<and> eligible dm date vis farm \<and> distances farm (stp_id stp) \<noteq> None)"
    if x: "x \<in> set ?new" for x
  proof -
    from x ids obtain c where c: "c \<in> set opts" "opt_farm_id c = act_farm_id x" by auto
    from delivery_options_sound[OF o c(1)] c(2)
    have "\<exists>farm \<in> set (farms dm). farm_id farm = act_farm_id x
                 \<and> eligible dm date vis farm \<and> distances farm (stp_id stp) \<noteq> None"
      by (auto simp: opt_farm_id_def)
    with accepted_stp_id[OF x] accepted_amount_ge[OF load x] show ?thesis by simp
  qed
  have s: "sum_list (map amount_tons ?new) \<le> max 0 ?av"
    using accepted_sum_le[of ?av stp "sort_options opts"] av by simp
  have d: "distinct (map act_farm_id ?new)" if "distinct (map farm_id (farms dm))"
  proof -
    from that have "distinct (map opt_farm_id opts)"
      by (simp add: delivery_options_farms[OF o] distinct_map_filter)
    then have "distinct (map opt_farm_id (sort_options opts))"
      by (simp add: sort_options_def distinct_map_sort_key)
    then show ?thesis
      by (simp only: accepted_farms_prefix[of stp "sort_options opts" ?av] distinct_take)
  qed
  from a v p s d show ?thesis by blast
qed


lemma dispatched_append: "dispatched (xs @ ys) sid = dispatched xs sid + dispatched ys sid"
  by (simp add: dispatched_def)

lemma dispatched_other: "\<forall>a \<in> set xs. act_stp_id a \<noteq> sid \<Longrightarrow> dispatched xs sid = 0"
  by (induction xs) (auto simp: dispatched_def)

lemma dispatched_same:
  "\<forall>a \<in> set xs. act_stp_id a = sid \<Longrightarrow> dispatched xs sid = sum_list (map amount_tons xs)"
  by (induction xs) (auto simp: dispatched_def)

lemma solve_stps_new:
  assumes "solve_stps dm date dem ss (acts, vis) = Inr (acts', vis')"
  shows "\<exists>new. acts' = acts @ new \<and> vis' = vis \<union> act_farm_id ` set new
     \<and> (\<forall>a \<in> set new. act_stp_id a \<in> stp_id ` set ss \<and> 1 \<le> amount_tons a
           \<and> act_farm_id a \<notin> vis \<and> proposal_ok dm date a)
     \<and> (distinct (map stp_id ss) \<longrightarrow>
          (\<forall>s \<in> set ss. dispatched new (stp_id s) \<le> max 0 (current_storage s + daily_output s)))
     \<and> (distinct (map farm_id (farms dm)) \<longrightarrow> distinct (map act_farm_id new))"
  using assms
proof (induction ss arbitrary: acts vis)
  case Nil
  then show ?case by simp
next
  case (Cons s rest)
  from Cons.prems obtain acts1 vis1 where
    st: "solve_stp dm date dem s (acts, vis) = Inr (acts1, vis1)"
    and re: "solve_stps dm date dem rest (acts1, vis1) = Inr (acts', vis')"
    by (auto split: sum.splits)
  from solve_stp_new[OF st] obtain new1 where
    a1: "acts1 = acts @ new1" and v1: "vis1 = vis \<union> act_farm_id ` set new1"
    and p1: "\<forall>a \<in> set new1. act_stp_id a = stp_id s \<and> 1 \<le> amount_tons a
           \<and> (\<exists>farm \<in> set (farms dm). farm_id farm = act_farm_id a
                 \<and> eligible dm date vis farm \<and> distances farm (stp_id s) \<noteq> None)"
    and s1: "sum_list (map amount_tons new1) \<le> max 0 (current_storage s + daily_output s)"
    and d1: "distinct (map farm_id (farms dm)) \<longrightarrow> distinct (map act_farm_id new1)"
    by blast
  from Cons.IH[OF re] obtain new2 where
    a2: "acts' = acts1 @ new2" and v2: "vis' = vis1 \<union> act_farm_id ` set new2"
    and p2: "\<forall>a \<in> set new2. act_stp_id a \<in> stp_id ` set rest \<and> 1 \<le> amount_tons a
           \<and> act_farm_id a \<notin> vis1 \<and> proposal_ok dm date a"
    and s2: "distinct (map stp_id rest) \<longrightarrow>
          (\<forall>s \<in> set rest. dispatched new2 (stp_id s) \<le> max 0 (current_storage s + daily_output s))"
    and d2: "distinct (map farm_id (farms dm)) \<longrightarrow> distinct (map act_farm_id new2)"
    by blast
  have q1: "\<forall>a \<in> set new1. act_stp_id a = stp_id s \<and> 1 \<le> amount_tons a
           \<and> act_farm_id a \<notin> vis \<and> proposal_ok dm date a"
    using p1 by (fastforce simp: eligible_def proposal_ok_def)
  have A: "acts' = acts @ (new1 @ new2)" using a1 a2 by simp
  have V: "vis' = vis \<union> act_farm_id ` set (new1 @ new2)" using v1 v2 by auto
  have P: "\<forall>a \<in> set (new1 @ new2). act_stp_id a \<in> stp_id ` set (s # rest) \<and> 1 \<le> amount_tons a
           \<and> act_farm_id a \<notin> vis \<and> proposal_ok dm date a"
    using q1 p2 v1 by auto
  have S: "\<forall>x \<in> set (s # rest).
        dispatched (new1 @ new2) (stp_id x) \<le> max 0 (current_storage x + daily_output x)"
    if dist: "distinct (map stp_id (s # rest))"
  proof
    fix x assume x: "x \<in> set (s # rest)"
    show "dispatched (new1 @ new2) (stp_id x) \<le> max 0 (current_storage x + daily_output x)"
    proof (cases "x = s")
      case True
      have "stp_id s \<notin> stp_id ` set rest" using dist by simp
      moreover have "\<forall>a \<in> set new2. act_stp_id a \<in> stp_id ` set rest" using p2 by blast
      ultimately have "\<forall>a \<in> set new2. act_stp_id a \<noteq> stp_id s" by metis
      then have "dispatched new2 (stp_id s) = 0" by (rule dispatched_other)
      moreover have "dispatched new1 (stp_id s) = sum_list (map amount_tons new1)"
        using q1 by (intro dispatched_same) simp
      ultimately show ?thesis using s1 True by (simp add: dispatched_append)
    next
      case False
      with x have xr: "x \<in> set rest" by simp
      from dist have "stp_id s \<notin> stp_id ` set rest" by simp
      with xr have "stp_id x \<noteq> stp_id s" by (metis imageI)
      then have "\<forall>a \<in> set new1. act_stp_id a \<noteq> stp_id x" using q1 by auto
      then have "dispatched new1 (stp_id x) = 0" by (rule dispatched_other)
      moreover have "dispatched new2 (stp_id x) \<le> max 0 (current_storage x + daily_output x)"
        using s2 dist xr by simp
      ultimately show ?thesis by (simp add: dispatched_append)
    qed
  qed
  have dis: "set (map act_farm_id new1) \<inter> set (map act_farm_id new2) = {}"
  proof (rule ccontr)
    assume "set (map act_farm_id new1) \<inter> set (map act_farm_id new2) \<noteq> {}"
    then obtain k where k1: "k \<in> set (map act_farm_id new1)" and k2: "k \<in> set (map act_farm_id new2)"
      by blast
    from k2 obtain b where b: "b \<in> set new2" "act_farm_id b = k" by (auto simp: image_iff)
    from k1 have "k \<in> vis1" unfolding v1 by simp
    with p2 b show False by blast
  qed
  have D: "distinct (map act_farm_id (new1 @ new2))" if "distinct (map farm_id (farms dm))"
    unfolding map_append distinct_append using that d1 d2 dis by blast
  from A V P S D show ?case by blast
qed


lemma solve_day_new:
  assumes "solve_day dm date = Inr actions"
  shows "(\<forall>a \<in> set actions. act_stp_id a \<in> stp_id ` set (stps dm) \<and> 1 \<le> amount_tons a
            \<and> proposal_ok dm date a)
     \<and> (distinct (map stp_id (stps dm)) \<longrightarrow>
          (\<forall>s \<in> set (stps dm). dispatched actions (stp_id s) \<le> max 0 (current_storage s + daily_output s)))
     \<and> (distinct (map farm_id (farms dm)) \<longrightarrow> distinct (map act_farm_id actions))"
proof -
  from assms obtain vis' where
    "solve_stps dm date (get_daily_demand_per_ha dm date) (sorted_stps dm) ([], {}) = Inr (actions, vis')"
    by (auto simp: solve_day_def split: sum.splits)
  from solve_stps_new[OF this] show ?thesis
    by (simp add: sorted_stps_def distinct_map_sort_key)
qed

lemma solve_day_example0: "solve_day dm0 ''d1'' = Inr [Action ''A'' ''F1'' 10]"
  by (simp add: eval_defs solve_defs)

lemma solve_day_example1: "solve_day dm1 ''d1'' = Inr actions1"
  by (simp add: eval1_defs solve_defs actions1_def)

text \<open>
  Claim C5. In the action list returned by \<open>solve_day\<close> every action carries at least
  1.0 ton, hence more than 0, and for every plant the tons of the actions sourced from it
  sum to at most the material it has available, \<open>current_storage + daily_output\<close> at the
  start of the day (a quantity that is not negative for a plant with non-negative
  storage and output). Plants are told apart by their ids, which are the keys of a dict.
\<close>

theorem solve_day_feasible:
  assumes "solve_day dm date = Inr actions" and "distinct (map stp_id (stps dm))"
  shows "(\<forall>a \<in> set actions. 0 < amount_tons a \<and> 1 \<le> amount_tons a)
    \<and> (\<forall>s \<in> set (stps dm). 0 \<le> current_storage s + daily_output s \<longrightarrow>
          dispatched actions (stp_id s) \<le> current_storage s + daily_output s)"
  using solve_day_new[OF assms(1)] assms(2) by fastforce

text \<open>Plant P has 25 tons and its three actions carry 10, 10 and 5 tons.\<close>

theorem solve_day_feasible_witness:
  "solve_day dm1 ''d1'' = Inr actions1 \<and> distinct (map stp_id (stps dm1))
   \<and> list_all (\<lambda>a. 1 \<le> amount_tons a) actions1
   \<and> 0 \<le> current_storage stpP + daily_output stpP
   \<and> dispatched actions1 (stp_id stpP) = 25
   \<and> dispatched actions1 (stp_id stpP) \<le> current_storage stpP + daily_output stpP"
proof -
  have d: "distinct (map stp_id (stps dm1))" by (simp add: dm1_def)
  have p: "stpP \<in> set (stps dm1)" by (simp add: dm1_def)
  have n: "0 \<le> current_storage stpP + daily_output stpP" by (simp add: stpP_def)
  have e: "dispatched actions1 (stp_id stpP) = 25"
    by (simp add: dispatched_def actions1_def stpP_def)
  from solve_day_feasible[OF solve_day_example1 d] p n
  have "(\<forall>a \<in> set actions1. 1 \<le> amount_tons a)
     \<and> dispatched actions1 (stp_id stpP) \<le> current_storage stpP + daily_output stpP"
    by blast
  with solve_day_example1 d n e show ?thesis by (simp add: list_all_iff)
qed

text \<open>
  Claim C6. In the action list returned by \<open>solve_day\<close> no farm is the destination of
  two actions, and the options of a plant never contain a farm of the visited set, that
  is, a farm an earlier plant was given. Farms are told apart by their ids, which are the
  keys of a dict.
\<close>

theorem solve_day_one_delivery_per_farm:
  assumes "solve_day dm date = Inr actions" and "distinct (map farm_id (farms dm))"
  shows "distinct (map act_farm_id actions)
    \<and> (\<forall>dem stp av vis opts. delivery_options dm date dem stp av vis (farms dm) = Inr opts
          \<longrightarrow> opt_farm_id ` set opts \<inter> vis = {})"
proof -
  have "opt_farm_id ` set opts \<inter> vis = {}"
    if "delivery_options dm date dem stp av vis (farms dm) = Inr opts" for dem stp av vis opts
  proof -
    have "set (map opt_farm_id opts) \<inter> vis = {}"
      unfolding delivery_options_farms[OF that] by (auto simp: eligible_def)
    then show ?thesis by simp
  qed
  with solve_day_new[OF assms(1)] assms(2) show ?thesis by blast
qed

text \<open>
  On day d1 plant A, the fuller one, takes farm F1. Plant B comes second with 7 tons and
  F1 would be worth 1408 to it, but F1 is visited and F2 is rain-locked: B has no option.
\<close>

theorem solve_day_one_delivery_per_farm_witness:
  "solve_day dm0 ''d1'' = Inr [Action ''A'' ''F1'' 10] \<and> distinct (map farm_id (farms dm0))
   \<and> distinct (map act_farm_id [Action ''A'' ''F1'' 10])
   \<and> delivery_options dm0 ''d1'' (get_daily_demand_per_ha dm0 ''d1'') stpB 7 {} (farms dm0)
        = Inr [(1408, 400, ''F1'', 7)]
   \<and> delivery_options dm0 ''d1'' (get_daily_demand_per_ha dm0 ''d1'') stpB 7 {''F1''} (farms dm0)
        = Inr []
   \<and> opt_farm_id ` set [] \<inter> {''F1''} = {}"
proof -
  have d: "distinct (map farm_id (farms dm0))" by (simp add: dm0_def farm1_def farm2_def)
  have o: "delivery_options dm0 ''d1'' (get_daily_demand_per_ha dm0 ''d1'') stpB 7 {} (farms dm0)
        = Inr [(1408, 400, ''F1'', 7)]"
    by (simp add: eval_defs solve_defs)
  have v: "delivery_options dm0 ''d1'' (get_daily_demand_per_ha dm0 ''d1'') stpB 7 {''F1''} (farms dm0)
        = Inr []"
    by (simp add: eval_defs solve_defs)
  from solve_day_one_delivery_per_farm[OF solve_day_example0 d] v
  have "distinct (map act_farm_id [Action ''A'' ''F1'' 10])
     \<and> opt_farm_id ` set [] \<inter> {''F1''} = {}"
    by blast
  with solve_day_example0 d o v show ?thesis by blast
qed

section \<open>The solver's actions in the simulator\<close>

lemma find_distinct:
  "distinct (map g xs) \<Longrightarrow> x \<in> set xs \<Longrightarrow> find (\<lambda>y. g y = g x) xs = Some x"
  by (induction xs) (auto simp: image_iff)

lemma find_some_if_mem: "x \<in> set xs \<Longrightarrow> find (\<lambda>y. g y = g x) xs \<noteq> None"
  by (induction xs) auto

lemma proposal_lookup:
  assumes "proposal_ok dm date a" and "distinct (map farm_id (farms dm))"
  shows "\<exists>farm. lookup_farm dm (act_farm_id a) = Some farm
     \<and> is_rain_locked dm date (zone farm) = Inr False
     \<and> distances farm (act_stp_id a) \<noteq> None"
proof -
  from assms(1) obtain farm where f: "farm \<in> set (farms dm)" "farm_id farm = act_farm_id a"
    and r: "is_rain_locked dm date (zone farm) = Inr False"
    and d: "distances farm (act_stp_id a) \<noteq> None"
    unfolding proposal_ok_def by blast
  from find_distinct[OF assms(2) f(1)] f(2) have "lookup_farm dm (act_farm_id a) = Some farm"
    by (simp add: lookup_farm_def)
  with r d show ?thesis by blast
qed

lemma dict_add_keys: "fst ` set (dict_add dd k v) = insert k (fst ` set dd)"
  by (induction dd k v rule: dict_add.induct) auto

lemma process_action_unlocked_fields:
  assumes "lookup_farm dm (act_farm_id a) = Some farm"
    and "is_rain_locked dm date (zone farm) = Inr False"
    and "process_action dm date acc a = Inr acc'"
  shows "banned_count acc' = banned_count acc
    \<and> farm_deliveries acc' = dict_add (farm_deliveries acc) (act_farm_id a) (amount_tons a)"
  using assms
  by (auto simp: process_action_def Let_def split: option.splits if_splits)

lemma process_action_unlocked:
  assumes "lookup_farm dm (act_farm_id a) = Some farm"
    and "is_rain_locked dm date (zone farm) = Inr False"
    and "process_action dm date acc a = Inr acc'"
  shows "banned_count acc' = banned_count acc"
    and "fst ` set (farm_deliveries acc') = insert (act_farm_id a) (fst ` set (farm_deliveries acc))"
  using process_action_unlocked_fields[OF assms] by (simp_all add: dict_add_keys)

lemma process_action_unlocked_total:
  assumes "lookup_farm dm (act_farm_id a) = Some farm"
    and "is_rain_locked dm date (zone farm) = Inr False"
    and "distances farm (act_stp_id a) \<noteq> None"
    and "lookup_stp dm (act_stp_id a) \<noteq> None"
    and "truck_capacity (config dm) \<noteq> 0"
  shows "\<exists>acc'. process_action dm date acc a = Inr acc'"
  using assms by (auto simp: process_action_def Let_def)


lemma process_actions_unlocked:
  assumes "\<forall>a \<in> set actions. proposal_ok dm date a" and "distinct (map farm_id (farms dm))"
    and "process_actions dm date acc actions = Inr acc'"
  shows "banned_count acc' = banned_count acc
    \<and> fst ` set (farm_deliveries acc') = act_farm_id ` set actions \<union> fst ` set (farm_deliveries acc)"
  using assms(1,3)
proof (induction actions arbitrary: acc)
  case Nil
  then show ?case by simp
next
  case (Cons a rest)
  from Cons.prems(2) obtain acc1 where a1: "process_action dm date acc a = Inr acc1"
    and a2: "process_actions dm date acc1 rest = Inr acc'"
    by (auto split: sum.splits)
  from Cons.prems(1) have ok: "proposal_ok dm date a" and okr: "\<forall>a \<in> set rest. proposal_ok dm date a"
    by simp_all
  from proposal_lookup[OF ok assms(2)] obtain farm where
    f: "lookup_farm dm (act_farm_id a) = Some farm" "is_rain_locked dm date (zone farm) = Inr False"
    by blast
  note s1 = process_action_unlocked[OF f a1]
  note s2 = Cons.IH[OF okr a2]
  from s1(1) s2 have b: "banned_count acc' = banned_count acc" by simp
  from s2 have "fst ` set (farm_deliveries acc') =
      act_farm_id ` set rest \<union> fst ` set (farm_deliveries acc1)" by simp
  also have "\<dots> = act_farm_id ` set (a # rest) \<union> fst ` set (farm_deliveries acc)"
    unfolding s1(2) by auto
  finally show ?case using b by simp
qed

lemma process_actions_total:
  assumes "\<forall>a \<in> set actions. proposal_ok dm date a \<and> lookup_stp dm (act_stp_id a) \<noteq> None"
    and "distinct (map farm_id (farms dm))" and "truck_capacity (config dm) \<noteq> 0"
  shows "\<exists>acc'. process_actions dm date acc actions = Inr acc'"
  using assms(1)
proof (induction actions arbitrary: acc)
  case Nil
  then show ?case by simp
next
  case (Cons a rest)
  from Cons.prems have ok: "proposal_ok dm date a" and st: "lookup_stp dm (act_stp_id a) \<noteq> None"
    and okr: "\<forall>a \<in> set rest. proposal_ok dm date a \<and> lookup_stp dm (act_stp_id a) \<noteq> None"
    by simp_all
  from proposal_lookup[OF ok assms(2)] obtain farm where
    f: "lookup_farm dm (act_farm_id a) = Some farm" "is_rain_locked dm date (zone farm) = Inr False"
      "distances farm (act_stp_id a) \<noteq> None"
    by blast
  from process_action_unlocked_total[OF f st assms(3)] obtain acc1 where
    a1: "process_action dm date acc a = Inr acc1" by blast
  from Cons.IH[OF okr] obtain acc' where "process_actions dm date acc1 rest = Inr acc'" by blast
  with a1 show ?case by simp
qed

lemma process_farms_total:
  "\<forall>k \<in> fst ` set fd. lookup_farm dm k \<noteq> None \<Longrightarrow> \<exists>r. process_farms dm dem fd st = Inr r"
proof (induction fd arbitrary: st)
  case Nil
  then show ?case by simp
next
  case (Cons kv rest)
  obtain k v where kv: "kv = (k, v)" by (cases kv)
  obtain c p where st: "st = (c, p)" by (cases st)
  from Cons.prems kv obtain farm where f: "lookup_farm dm k = Some farm" by auto
  from Cons.prems have "\<forall>k \<in> fst ` set rest. lookup_farm dm k \<noteq> None" by simp
  from Cons.IH[OF this] f kv st show ?case by (simp add: Let_def)
qed


lemma run_day_total:
  assumes "process_actions dm date acc0 actions = Inr acc"
    and "process_farms dm (get_daily_demand_per_ha dm date) (farm_deliveries acc)
           (0, daily_penalties acc) = Inr r"
  shows "\<exists>dm' res. run_day dm date actions = Inr (dm', res)"
  using assms by (cases r) (simp add: run_day_def split: prod.splits)

lemma run_day_banned:
  assumes "run_day dm date actions = Inr (dm', res)"
  shows "\<exists>acc. process_actions dm date acc0 actions = Inr acc \<and> banned_actions res = banned_count acc"
proof -
  from assms obtain acc daily_credits pen where
    pa: "process_actions dm date acc0 actions = Inr acc"
    and "process_farms dm (get_daily_demand_per_ha dm date) (farm_deliveries acc)
               (0, daily_penalties acc) = Inr (daily_credits, pen)"
    and "dm' = dm\<lparr>stps := fst (process_stps (config dm) (stp_dispatches acc) (stps dm) (0, pen))\<rparr>"
    and res: "res = \<lparr>res_date = date, credits = daily_credits, emissions = daily_emissions acc,
       penalties = snd (snd (process_stps (config dm) (stp_dispatches acc) (stps dm) (0, pen))),
       net_score = daily_credits - daily_emissions acc
         - snd (snd (process_stps (config dm) (stp_dispatches acc) (stps dm) (0, pen))),
       delivered_tons = daily_delivered acc,
       overflow_tons = fst (snd (process_stps (config dm) (stp_dispatches acc) (stps dm) (0, pen))),
       banned_actions = banned_count acc\<rparr>"
    by (rule run_day_InrE)
  from res have "banned_actions res = banned_count acc" by simp
  with pa show ?thesis by blast
qed

text \<open>
  Claim C10. When \<open>run_day\<close> is given the action list \<open>solve_day\<close> returned for the same
  date and the same data, the result it returns has \<open>banned_actions = 0\<close>: every action
  goes to a farm the solver found not rain-locked, and the simulator looks the same farm
  up under the same id and asks the same question. With a truck capacity other than 0
  \<open>run_day\<close> does return a result on that list.
\<close>

theorem solver_actions_never_banned:
  assumes sol: "solve_day dm date = Inr actions" and dist: "distinct (map farm_id (farms dm))"
  shows "(\<forall>dm' res. run_day dm date actions = Inr (dm', res) \<longrightarrow> banned_actions res = 0)
    \<and> (truck_capacity (config dm) \<noteq> 0 \<longrightarrow> (\<exists>dm' res. run_day dm date actions = Inr (dm', res)))"
proof -
  from solve_day_new[OF sol] have ok: "\<forall>a \<in> set actions. proposal_ok dm date a"
    and ids: "\<forall>a \<in> set actions. act_stp_id a \<in> stp_id ` set (stps dm)"
    by blast+
  have 1: "banned_actions res = 0" if "run_day dm date actions = Inr (dm', res)" for dm' res
  proof -
    from run_day_banned[OF that] obtain acc where
      pa: "process_actions dm date acc0 actions = Inr acc" and b: "banned_actions res = banned_count acc"
      by blast
    from process_actions_unlocked[OF ok dist pa] b show ?thesis by (simp add: acc0_def)
  qed
  have 2: "\<exists>dm' res. run_day dm date actions = Inr (dm', res)" if t: "truck_capacity (config dm) \<noteq> 0"
  proof -
    have st: "lookup_stp dm (act_stp_id a) \<noteq> None" if "a \<in> set actions" for a
    proof -
      from ids that obtain x where "x \<in> set (stps dm)" "stp_id x = act_stp_id a" by force
      with find_some_if_mem[of x "stps dm" stp_id] show ?thesis by (simp add: lookup_stp_def)
    qed
    with ok have "\<forall>a \<in> set actions. proposal_ok dm date a \<and> lookup_stp dm (act_stp_id a) \<noteq> None"
      by blast
    from process_actions_total[OF this dist t] obtain acc where
      pa: "process_actions dm date acc0 actions = Inr acc" by blast
    from process_actions_unlocked[OF ok dist pa]
    have keys: "fst ` set (farm_deliveries acc) = act_farm_id ` set actions"
      by (simp add: acc0_def)
    have "lookup_farm dm k \<noteq> None" if "k \<in> fst ` set (farm_deliveries acc)" for k
    proof -
      from that keys obtain a where "a \<in> set actions" "k = act_farm_id a" by blast
      with ok proposal_lookup[OF _ dist, of date a] show ?thesis by auto
    qed
    then have "\<forall>k \<in> fst ` set (farm_deliveries acc). lookup_farm dm k \<noteq> None" by blast
    from process_farms_total[OF this] obtain r where
      "process_farms dm (get_daily_demand_per_ha dm date) (farm_deliveries acc) (0, daily_penalties acc) = Inr r"
      by blast
    from run_day_total[OF pa this] show ?thesis .
  qed
  from 1 2 show ?thesis by blast
qed

theorem solver_actions_never_banned_witness:
  "solve_day dm0 ''d1'' = Inr [Action ''A'' ''F1'' 10] \<and> distinct (map farm_id (farms dm0))
   \<and> truck_capacity (config dm0) \<noteq> 0
   \<and> (\<exists>dm' res. run_day dm0 ''d1'' [Action ''A'' ''F1'' 10] = Inr (dm', res)
         \<and> banned_actions res = 0)"
proof -
  have d: "distinct (map farm_id (farms dm0))" by (simp add: dm0_def farm1_def farm2_def)
  have t: "truck_capacity (config dm0) \<noteq> 0" by (simp add: dm0_def cfg0_def)
  from solver_actions_never_banned[OF solve_day_example0 d] t
  have "\<exists>dm' res. run_day dm0 ''d1'' [Action ''A'' ''F1'' 10] = Inr (dm', res)
         \<and> banned_actions res = 0"
    by blast
  with solve_day_example0 d t show ?thesis by blast
qed

end
